theory Spec2Isabelle
  imports Complex_Main "HOL-Library.Multiset" "HOL-Library.Sublist"
begin

section \<open>Strings\<close>

text \<open>
  A JavaScript string is modelled as a \<^typ>\<open>string\<close>, one \<^typ>\<open>char\<close> per code unit
  in the range U+0000 .. U+00FF. User names with code units above U+00FF are outside this
  type. The fixed texts of the bot that contain a symbol above U+00FF (the emoji and the
  dash of the replies) are constants below, the symbol written as its UTF-8 bytes; no
  operation of the bot inspects them.
\<close>

definition toLowerCase_char :: "char \<Rightarrow> char" where
  \<comment> \<open>\<open>String.prototype.toLowerCase\<close> on one code unit below U+0100: A-Z, and the
      capital letters U+00C0 .. U+00DE except the multiplication sign U+00D7, move up by 32.\<close>
  "toLowerCase_char c =
     (let n = (of_char c :: nat)
      in if (65 \<le> n \<and> n \<le> 90) \<or> (192 \<le> n \<and> n \<le> 222 \<and> n \<noteq> 215)
         then char_of (n + 32) else c)"

definition toLowerCase :: "string \<Rightarrow> string" where
  "toLowerCase s = map toLowerCase_char s"

definition channel_char :: "char \<Rightarrow> bool" where
  \<comment> \<open>the character class \<open>[a-z0-9-]\<close>\<close>
  "channel_char c =
     (let n = (of_char c :: nat)
      in (97 \<le> n \<and> n \<le> 122) \<or> (48 \<le> n \<and> n \<le> 57) \<or> n = 45)"

definition strip_non_channel :: "string \<Rightarrow> string" where
  \<comment> \<open>\<open>.replace(/[^a-z0-9-]/g, "")\<close>: every code unit outside the class is deleted\<close>
  "strip_non_channel s = filter channel_char s"

section \<open>Onboarding provisioner: the channel name\<close>

definition channelName :: "string \<Rightarrow> string" where
  \<comment> \<open>\<open>`verify-${member.user.username}`.toLowerCase().replace(/[^a-z0-9-]/g, "")\<close>
      (bot.js 142-144, part_000 100-102)\<close>
  "channelName username = strip_non_channel (toLowerCase (''verify-'' @ username))"

section \<open>Numbers\<close>

text \<open>
  A JavaScript number, and a \<open>DOUBLE PRECISION\<close> / \<open>REAL\<close> value of the store, is
  modelled by its exact value, a \<^typ>\<open>rat\<close>: every finite binary64 is a rational. NaN
  and the infinities are outside the type; the bot only ever stores \<open>0.2\<close>, \<open>-0.2\<close> and
  sums of them. Three operations of the platform are not part of the repository, and are
  parameters of the model: the addition of the storage engine, the order in which the
  engine meets the rows when it sorts them (\<open>ORDER BY balance DESC\<close> names no second
  key, so rows of equal balance come out in that order), and \<open>Number::toString\<close>,
  which \<open>toFixed\<close> falls back to from \<open>10^21\<close> on. Binary64 addition and
  \<open>Number::toString\<close> are also defined below, for the platform the model is run on.
\<close>

type_synonym row = "string \<times> rat"

type_synonym table = "row list"

record platform =
  float8_add :: "rat \<Rightarrow> rat \<Rightarrow> rat"
  scan_order :: "table \<Rightarrow> table"
  number_toString :: "rat \<Rightarrow> string"

definition scans_rows :: "(table \<Rightarrow> table) \<Rightarrow> bool" where
  \<comment> \<open>the engine's sort meets every row of the table, each once\<close>
  "scans_rows scan = (\<forall>t. mset (scan t) = mset t)"

definition num_0_2 :: rat where
  \<comment> \<open>the literal \<open>0.2\<close>: the binary64 nearest to one fifth, \<open>0x3FC999999999999A\<close>\<close>
  "num_0_2 = 3602879701896397 / 18014398509481984"

definition num_0_4 :: rat where
  \<comment> \<open>the number \<open>0.4\<close>: the binary64 nearest to two fifths, \<open>0x3FD999999999999A\<close>\<close>
  "num_0_4 = 3602879701896397 / 9007199254740992"

subsection \<open>Binary64 addition\<close>

text \<open>
  IEEE 754 binary64, round to nearest, ties to even, on exact values: the sum is rounded
  to the nearest multiple of the spacing of binary64 numbers at its magnitude,
  \<open>2^(e - 52)\<close> for \<open>2^e \<le> |x| < 2^(e + 1)\<close>, and \<open>2^(-1074)\<close> below \<open>2^(-1022)\<close>.
  Sums of magnitude \<open>2^1024\<close> and more, where binary64 overflows, are outside the model.
\<close>

function bit_length :: "int \<Rightarrow> nat" where
  "bit_length n = (if n \<le> 0 then 0 else Suc (bit_length (n div 2)))"
  by pat_completeness auto
termination
  by (relation "measure nat") auto

declare bit_length.simps [simp del]

definition binary_exponent :: "rat \<Rightarrow> int" where
  \<comment> \<open>for \<open>x \<noteq> 0\<close>, the \<open>e\<close> with \<open>2^e \<le> |x| < 2^(e + 1)\<close>\<close>
  "binary_exponent x =
     (if 1 \<le> \<bar>x\<bar> then int (bit_length \<lfloor>\<bar>x\<bar>\<rfloor>) - 1
      else - int (bit_length (\<lceil>1 / \<bar>x\<bar>\<rceil> - 1)))"

definition quantum :: "rat \<Rightarrow> rat" where
  \<comment> \<open>the spacing of binary64 numbers at the magnitude of \<open>x\<close>\<close>
  "quantum x =
     (let k = max (binary_exponent x) (- 1022) - 52
      in if 0 \<le> k then 2 ^ nat k else 1 / 2 ^ nat (- k))"

definition round_half_even :: "rat \<Rightarrow> int" where
  "round_half_even r =
     (let f = \<lfloor>r\<rfloor>; d = r - of_int f
      in if d < 1 / 2 then f
         else if 1 / 2 < d then f + 1
         else if even f then f else f + 1)"

definition binary64_round :: "rat \<Rightarrow> rat" where
  "binary64_round x =
     (if x = 0 then 0 else of_int (round_half_even (x / quantum x)) * quantum x)"

definition binary64_add :: "rat \<Rightarrow> rat \<Rightarrow> rat" where
  "binary64_add a b = binary64_round (a + b)"

definition parseFloat :: "rat \<Rightarrow> rat" where
  \<comment> \<open>\<open>parseFloat\<close> of a number: its shortest decimal text, read back as the same number\<close>
  "parseFloat x = x"

definition digit_char :: "nat \<Rightarrow> char" where
  "digit_char d = char_of (48 + d)"

fun decimal :: "nat \<Rightarrow> string" where
  "decimal n = (if n < 10 then [digit_char n] else decimal (n div 10) @ [digit_char (n mod 10)])"

declare decimal.simps [simp del]

definition set_point :: "string \<Rightarrow> nat \<Rightarrow> string" where
  \<comment> \<open>step 11.c of \<open>toFixed\<close>, for \<open>f \<noteq> 0\<close>: the digits \<open>m\<close> are padded with zeros
      to \<open>f + 1\<close> places and the point is set before the last \<open>f\<close>\<close>
  "set_point m0 f =
     (let k = length m0;
          m = (if k \<le> f then replicate (f + 1 - k) (CHR ''0'') @ m0 else m0);
          k = (if k \<le> f then f + 1 else k)
      in take (k - f) m @ ''.'' @ drop (k - f) m)"

definition toFixed :: "(rat \<Rightarrow> string) \<Rightarrow> rat \<Rightarrow> nat \<Rightarrow> string" where
  \<comment> \<open>\<open>Number.prototype.toFixed(f)\<close> on a finite number, step by step as ECMA-262 has it:
      the sign is split off; from \<open>10^21\<close> on the text is that of \<open>Number::toString\<close>;
      below, \<open>n\<close> is the integer nearest to \<open>x * 10^f\<close> (the larger of two), and
      its digits get the point\<close>
  "toFixed tostr x0 f =
     (let s = (if x0 < 0 then ''-'' else []);
          x = (if x0 < 0 then - x0 else x0)
      in if 10 ^ 21 \<le> x then s @ tostr x
         else
           let n = nat \<lfloor>x * 10 ^ f + 1 / 2\<rfloor>;
               m = decimal n;
               m = (if f \<noteq> 0 then set_point m f else m)
           in s @ m)"

fun join :: "string \<Rightarrow> string list \<Rightarrow> string" where
  \<comment> \<open>\<open>Array.prototype.join\<close>\<close>
  "join sep [] = []"
| "join sep [x] = x"
| "join sep (x # y # ys) = x @ sep @ join sep (y # ys)"

subsection \<open>\<open>Number::toString\<close> from \<open>10^21\<close> on\<close>

text \<open>
  ECMA-262, \<open>Number::toString(x)\<close> in radix 10 for \<open>10^21 \<le> x\<close>: with integers
  \<open>n\<close>, \<open>k\<close>, \<open>s\<close> such that \<open>s\<close> has \<open>k\<close> digits, \<open>s * 10^(n - k)\<close> is the number
  \<open>x\<close> when read as a binary64, and \<open>k\<close> is as small as possible (of several such
  \<open>s\<close> the one nearest \<open>x\<close>, of two equally near the even one), the text is the first
  digit of \<open>s\<close>, a point and the other digits if there are any, \<open>e+\<close> and \<open>n - 1\<close>.
  A binary64 needs at most 17 digits.
\<close>

function decimal_of_int :: "int \<Rightarrow> string" where
  \<comment> \<open>the decimal digits of an integer that is not negative\<close>
  "decimal_of_int n =
     (if n < 10 then [digit_char (nat n)]
      else decimal_of_int (n div 10) @ [digit_char (nat (n mod 10))])"
  by pat_completeness auto
termination
  by (relation "measure nat") auto

declare decimal_of_int.simps [simp del]

definition digits_candidate :: "rat \<Rightarrow> nat \<Rightarrow> int option" where
  \<comment> \<open>the \<open>s\<close> next to \<open>x / 10^p\<close> for which \<open>s * 10^p\<close> reads back as \<open>x\<close>\<close>
  "digits_candidate x p =
     (let scale = 10 ^ p;
          lo = \<lfloor>x / scale\<rfloor>;
          hi = lo + 1;
          ok_lo = (binary64_round (of_int lo * scale) = x);
          ok_hi = (binary64_round (of_int hi * scale) = x);
          d_lo = x - of_int lo * scale;
          d_hi = of_int hi * scale - x
      in if ok_lo \<and> ok_hi
         then (if d_lo < d_hi then Some lo
               else if d_hi < d_lo then Some hi
               else if even lo then Some lo else Some hi)
         else if ok_lo then Some lo
         else if ok_hi then Some hi
         else None)"

fun shortest_digits :: "rat \<Rightarrow> nat \<Rightarrow> nat \<Rightarrow> nat \<Rightarrow> (int \<times> nat) option" where
  \<comment> \<open>the least \<open>k\<close> from \<open>k\<close> on, at most \<open>fuel\<close> of them, with its \<open>s\<close>;
      \<open>n0\<close> is the number of digits of the integer part of \<open>x\<close>\<close>
  "shortest_digits x n0 k 0 = None"
| "shortest_digits x n0 k (Suc fuel) =
     (case digits_candidate x (n0 - k) of
        Some s \<Rightarrow> Some (s, k)
      | None \<Rightarrow> shortest_digits x n0 (k + 1) fuel)"

definition Number_toString :: "rat \<Rightarrow> string" where
  \<comment> \<open>for \<open>10^21 \<le> x\<close>; \<open>x\<close> is first read as a binary64, as \<open>toFixed\<close> does\<close>
  "Number_toString x0 =
     (let x = binary64_round x0;
          n0 = length (decimal_of_int \<lfloor>x\<rfloor>)
      in case shortest_digits x n0 1 17 of
           None \<Rightarrow> []
         | Some (s, k) \<Rightarrow>
             if s = 10 ^ k then ''1e+'' @ decimal n0
             else (let d = decimal_of_int s
                   in (if k = 1 then d else take 1 d @ ''.'' @ drop 1 d)
                        @ ''e+'' @ decimal (n0 - 1)))"

section \<open>Ledger store\<close>

text \<open>
  The table \<open>balances (user_id TEXT PRIMARY KEY, balance DOUBLE PRECISION)\<close> is the list
  of its rows, in the order the engine keeps them. The statements are taken to be
  executed: a statement that the engine rejects (\<open>StorageUnavailable\<close>) is an event of
  the engine, not of this code, and is not modelled.
\<close>

definition primary_key :: "table \<Rightarrow> bool" where
  "primary_key t = distinct (map fst t)"

definition select_balance :: "table \<Rightarrow> string \<Rightarrow> rat list" where
  \<comment> \<open>\<open>SELECT balance FROM balances WHERE user_id = $1\<close>\<close>
  "select_balance t userId = map snd (filter (\<lambda>r. fst r = userId) t)"

definition pg_upsert :: "platform \<Rightarrow> table \<Rightarrow> string \<Rightarrow> rat \<Rightarrow> table" where
  \<comment> \<open>\<open>INSERT INTO balances (user_id, balance) VALUES ($1, $2)
       ON CONFLICT (user_id) DO UPDATE SET balance = balances.balance + EXCLUDED.balance\<close>.
      Postgres writes an updated row as a new row version, behind the rows of the table.\<close>
  "pg_upsert pf t p1 p2 =
     (let excluded = (p1, p2)
      in if fst excluded \<in> set (map fst t)
         then filter (\<lambda>r. fst r \<noteq> fst excluded) t @
              map (\<lambda>r. (fst r, float8_add pf (snd r) (snd excluded)))
                (filter (\<lambda>r. fst r = fst excluded) t)
         else t @ [excluded])"

definition sqlite_upsert :: "platform \<Rightarrow> table \<Rightarrow> string \<Rightarrow> rat \<Rightarrow> rat \<Rightarrow> table" where
  \<comment> \<open>\<open>INSERT INTO balances (user_id, balance) VALUES (?, ?)
       ON CONFLICT(user_id) DO UPDATE SET balance = balance + ?\<close>.
      SQLite rewrites an updated row where it is.\<close>
  "sqlite_upsert pf t p1 p2 p3 =
     (if p1 \<in> set (map fst t)
      then map (\<lambda>r. if fst r = p1 then (fst r, float8_add pf (snd r) p3) else r) t
      else t @ [(p1, p2)])"

definition select_top :: "platform \<Rightarrow> table \<Rightarrow> nat \<Rightarrow> row list" where
  \<comment> \<open>\<open>SELECT user_id, balance FROM balances ORDER BY balance DESC LIMIT $1\<close>: the rows
      as the engine meets them, sorted by balance, largest first, rows of equal balance
      staying in that order; of these the first \<open>$1\<close>\<close>
  "select_top pf t n = take n (sort_key (\<lambda>r. - snd r) (scan_order pf t))"

subsection \<open>The Postgres-backed helpers of bot.js\<close>

text \<open>
  \<open>pool\<close> is \<open>null\<close> (\<open>None\<close>) when no \<open>DATABASE_URL\<close> is set, and otherwise a handle
  on the table.
\<close>

type_synonym pool = "table option"

definition truthy :: "string option \<Rightarrow> bool" where
  \<comment> \<open>an environment variable is falsy when it is unset or empty\<close>
  "truthy v = (case v of None \<Rightarrow> False | Some s \<Rightarrow> s \<noteq> [])"

definition new_pool :: "string option \<Rightarrow> table \<Rightarrow> pool" where
  \<comment> \<open>bot.js 24-28; \<open>database\<close> is the table that the connection string leads to\<close>
  "new_pool DATABASE_URL database =
     (let connectionOptions = (if truthy DATABASE_URL then Some database else None)
      in case connectionOptions of Some db \<Rightarrow> Some db | None \<Rightarrow> None)"

definition getBalance :: "pool \<Rightarrow> string \<Rightarrow> rat" where
  \<comment> \<open>bot.js 104-108\<close>
  "getBalance pool userId =
     (case pool of
        None \<Rightarrow> 0
      | Some t \<Rightarrow> (case select_balance t userId of [] \<Rightarrow> 0 | b # _ \<Rightarrow> parseFloat b))"

definition addBalance :: "platform \<Rightarrow> pool \<Rightarrow> string \<Rightarrow> rat \<Rightarrow> pool" where
  \<comment> \<open>bot.js 110-120; the result is the pool after the call\<close>
  "addBalance pf pool userId amount =
     (case pool of
        None \<Rightarrow> None
      | Some t \<Rightarrow> Some (pg_upsert pf t userId amount))"

definition getLeaderboard :: "platform \<Rightarrow> pool \<Rightarrow> nat option \<Rightarrow> row list" where
  \<comment> \<open>bot.js 122-129; the limit defaults to 15 when the argument is left out\<close>
  "getLeaderboard pf pool limit_arg =
     (let limit = (case limit_arg of None \<Rightarrow> 15 | Some n \<Rightarrow> n)
      in case pool of
           None \<Rightarrow> []
         | Some t \<Rightarrow> select_top pf t limit)"

fun addBalances :: "platform \<Rightarrow> pool \<Rightarrow> (string \<times> rat) list \<Rightarrow> pool" where
  \<comment> \<open>a history of \<open>addBalance\<close> calls, one after the other\<close>
  "addBalances pf pool [] = pool"
| "addBalances pf pool ((userId, amount) # calls) =
     addBalances pf (addBalance pf pool userId amount) calls"

subsection \<open>The SQLite-backed helpers of part_000\<close>

text \<open>
  Here the database handle always exists. The value given is the one handed to the
  callback (\<open>callback(null, v)\<close>).
\<close>

definition getBalance_sqlite :: "table \<Rightarrow> string \<Rightarrow> rat" where
  \<comment> \<open>part_000 67-72\<close>
  "getBalance_sqlite db userId =
     (case select_balance db userId of [] \<Rightarrow> 0 | b # _ \<Rightarrow> b)"

definition addBalance_sqlite :: "platform \<Rightarrow> table \<Rightarrow> string \<Rightarrow> rat \<Rightarrow> table" where
  \<comment> \<open>part_000 74-79\<close>
  "addBalance_sqlite pf db userId amount = sqlite_upsert pf db userId amount amount"

definition getLeaderboard_sqlite :: "platform \<Rightarrow> table \<Rightarrow> nat \<Rightarrow> row list" where
  \<comment> \<open>part_000 81-86\<close>
  "getLeaderboard_sqlite pf db limit = select_top pf db limit"

fun addBalances_sqlite :: "platform \<Rightarrow> table \<Rightarrow> (string \<times> rat) list \<Rightarrow> table" where
  "addBalances_sqlite pf db [] = db"
| "addBalances_sqlite pf db ((userId, amount) # calls) =
     addBalances_sqlite pf (addBalance_sqlite pf db userId amount) calls"

section \<open>Command router\<close>

record user =
  id_of :: string
  username :: string

record interaction =
  isCommand :: bool
  isChatInputCommand :: bool
  commandName :: string
  invoker :: user
  options :: "(string \<times> user) list"

text \<open>
  \<open>invoker\<close> is \<open>interaction.user\<close>, \<open>id_of\<close> is \<open>user.id\<close>.
  \<open>interaction.options.getUser(name)\<close> is \<open>null\<close> for an option that was not sent.
\<close>

definition getUser :: "(string \<times> user) list \<Rightarrow> string \<Rightarrow> user option" where
  "getUser opts name = map_of opts name"

text \<open>
  What a handler does, in order: the replies it sends through the gateway, and the calls
  it makes to the ledger helpers. The flag of \<open>DeferReply\<close> and \<open>Reply\<close> is
  \<open>ephemeral\<close>: the reply is visible to the invoker only.
\<close>

datatype action =
    DeferReply bool
  | Reply string bool
  | EditReply string
  | Call_getBalance string
  | Call_addBalance string rat
  | Call_getLeaderboard nat

definition newline :: string where
  "newline = [CHR 0x0A]"

definition emoji_money_bag :: string where
  \<comment> \<open>U+1F4B0\<close>
  "emoji_money_bag = [CHR 0xF0, CHR 0x9F, CHR 0x92, CHR 0xB0]"

definition emoji_check_mark :: string where
  \<comment> \<open>U+2705\<close>
  "emoji_check_mark = [CHR 0xE2, CHR 0x9C, CHR 0x85]"

definition emoji_cross_mark :: string where
  \<comment> \<open>U+274C\<close>
  "emoji_cross_mark = [CHR 0xE2, CHR 0x9D, CHR 0x8C]"

definition emoji_left_arrow :: string where
  \<comment> \<open>U+21A9 U+FE0F\<close>
  "emoji_left_arrow = [CHR 0xE2, CHR 0x86, CHR 0xA9, CHR 0xEF, CHR 0xB8, CHR 0x8F]"

definition emoji_trophy :: string where
  \<comment> \<open>U+1F3C6\<close>
  "emoji_trophy = [CHR 0xF0, CHR 0x9F, CHR 0x8F, CHR 0x86]"

definition em_dash :: string where
  \<comment> \<open>U+2014\<close>
  "em_dash = [CHR 0xE2, CHR 0x80, CHR 0x94]"

definition owner_only_text :: string where
  "owner_only_text = emoji_cross_mark @ '' Only the owner can use this command.''"

definition balance_text :: "platform \<Rightarrow> rat \<Rightarrow> string" where
  \<comment> \<open>bot.js 193\<close>
  "balance_text pf balance =
     emoji_money_bag @ '' Your current balance is **''
       @ toFixed (number_toString pf) balance 2 @ ''**''"

definition verified_text :: "user \<Rightarrow> user \<Rightarrow> string" where
  \<comment> \<open>bot.js 211\<close>
  "verified_text member inviter =
     emoji_check_mark @ '' Verified **'' @ username member @ ''** was invited by **''
       @ username inviter @ ''**.'' @ newline @ ''Added **0.2** to '' @ username inviter
       @ [CHR 0x27] @ ''s balance.''"

definition unverified_text :: "user \<Rightarrow> user \<Rightarrow> string" where
  \<comment> \<open>bot.js 229\<close>
  "unverified_text member inviter =
     emoji_left_arrow @ '' Unverified **'' @ username member
       @ ''** who was invited by **'' @ username inviter @ ''**.'' @ newline
       @ ''Removed **0.2** from '' @ username inviter @ [CHR 0x27] @ ''s balance.''"

definition no_data_text :: string where
  \<comment> \<open>bot.js 241\<close>
  "no_data_text = emoji_trophy @ '' No data yet!''"

definition leaderboard_line :: "platform \<Rightarrow> nat \<Rightarrow> row \<Rightarrow> string" where
  \<comment> \<open>bot.js 244: the callback of \<open>rows.map\<close>, at index \<open>i\<close>\<close>
  "leaderboard_line pf i row =
     decimal (i + 1) @ ''. <@'' @ fst row @ ''> '' @ em_dash @ '' **''
       @ toFixed (number_toString pf) (parseFloat (snd row)) 2 @ ''**''"

definition leaderboard_text :: "platform \<Rightarrow> row list \<Rightarrow> string" where
  \<comment> \<open>bot.js 243-247\<close>
  "leaderboard_text pf rows =
     (let formatted = join newline (map (\<lambda>(i, row). leaderboard_line pf i row) (enumerate 0 rows))
      in emoji_trophy @ '' **Top 15 Leaderboard**'' @ newline @ newline @ formatted)"

definition interactionCreate ::
  "platform \<Rightarrow> string option \<Rightarrow> pool \<Rightarrow> interaction \<Rightarrow> pool \<times> action list" where
  \<comment> \<open>bot.js 184-253. \<open>OWNER_ID\<close> is \<open>process.env.OWNER_ID\<close>, \<open>None\<close> when unset. The
      result is the pool after the handler and what the handler did. Inside \<open>try\<close>, reading
      \<open>.id\<close> or \<open>.username\<close> of a \<open>null\<close> option throws, and the \<open>catch\<close> edits the
      reply to the error text.\<close>
  "interactionCreate pf OWNER_ID pool i =
     (if \<not> isCommand i \<and> \<not> isChatInputCommand i then (pool, [])
      else if commandName i = ''balance'' then
        (let balance = getBalance pool (id_of (invoker i))
         in (pool, [DeferReply True, Call_getBalance (id_of (invoker i)),
                    EditReply (balance_text pf balance)]))
      else if commandName i = ''verify'' then
        (if Some (id_of (invoker i)) \<noteq> OWNER_ID then (pool, [Reply owner_only_text True])
         else
           (case getUser (options i) ''inviter'' of
              None \<Rightarrow> (pool, [DeferReply False, EditReply ''Error updating balance.''])
            | Some inviter \<Rightarrow>
                (let pool' = addBalance pf pool (id_of inviter) num_0_2
                 in case getUser (options i) ''member'' of
                      None \<Rightarrow>
                        (pool', [DeferReply False, Call_addBalance (id_of inviter) num_0_2,
                                 EditReply ''Error updating balance.''])
                    | Some member \<Rightarrow>
                        (pool', [DeferReply False, Call_addBalance (id_of inviter) num_0_2,
                                 EditReply (verified_text member inviter)]))))
      else if commandName i = ''unverify'' then
        (if Some (id_of (invoker i)) \<noteq> OWNER_ID then (pool, [Reply owner_only_text True])
         else
           (case getUser (options i) ''inviter'' of
              None \<Rightarrow> (pool, [DeferReply False, EditReply ''Error updating balance.''])
            | Some inviter \<Rightarrow>
                (let pool' = addBalance pf pool (id_of inviter) (- num_0_2)
                 in case getUser (options i) ''member'' of
                      None \<Rightarrow>
                        (pool', [DeferReply False, Call_addBalance (id_of inviter) (- num_0_2),
                                 EditReply ''Error updating balance.''])
                    | Some member \<Rightarrow>
                        (pool', [DeferReply False, Call_addBalance (id_of inviter) (- num_0_2),
                                 EditReply (unverified_text member inviter)]))))
      else if commandName i = ''leaderboard'' then
        (let rows = getLeaderboard pf pool (Some 15)
         in if rows = [] then (pool, [DeferReply False, Call_getLeaderboard 15,
                                      EditReply no_data_text])
            else (pool, [DeferReply False, Call_getLeaderboard 15,
                         EditReply (leaderboard_text pf rows)]))
      else (pool, []))"

subsection \<open>A platform to run the model on\<close>

text \<open>
  Addition is binary64 addition, the sort meets the rows in table order, as Postgres and
  SQLite do on a table of a few rows, and numbers from \<open>10^21\<close> on print as JavaScript
  prints them.
\<close>

definition platform_A :: platform where
  "platform_A =
     \<lparr>float8_add = binary64_add,
      scan_order = (\<lambda>t. t),
      number_toString = Number_toString\<rparr>"

subsection \<open>The tie rules of the specification\<close>

text \<open>
  The specification asks that records of equal balance come in insertion order or in
  the order of their identity strings. These predicates say so of a leaderboard:
  \<open>before u v\<close> is the rule, that \<open>u\<close> may stand before \<open>v\<close>.
\<close>

definition ties_broken_by :: "(string \<Rightarrow> string \<Rightarrow> bool) \<Rightarrow> row list \<Rightarrow> bool" where
  "ties_broken_by before rows =
     sorted_wrt (\<lambda>r s. snd r \<noteq> snd s \<or> before (fst r) (fst s)) rows"

definition first_credit :: "(string \<times> rat) list \<Rightarrow> string \<Rightarrow> nat" where
  \<comment> \<open>the position, in a history of \<open>addBalance\<close> calls, of the first call for a user\<close>
  "first_credit calls u = length (takeWhile (\<lambda>c. fst c \<noteq> u) calls)"

definition inserted_before :: "(string \<times> rat) list \<Rightarrow> string \<Rightarrow> string \<Rightarrow> bool" where
  "inserted_before calls u v = (first_credit calls u \<le> first_credit calls v)"

fun string_le :: "string \<Rightarrow> string \<Rightarrow> bool" where
  \<comment> \<open>the order of strings by code units\<close>
  "string_le [] v = True"
| "string_le (c # u) [] = False"
| "string_le (c # u) (d # v) =
     ((of_char c :: nat) < of_char d \<or> (c = d \<and> string_le u v))"

subsection \<open>Sample users and commands\<close>

definition operator :: user where
  "operator = \<lparr>id_of = ''1001'', username = ''Operator''\<rparr>"

definition newcomer :: user where
  "newcomer = \<lparr>id_of = ''2002'', username = ''newcomer''\<rparr>"

definition friend :: user where
  "friend = \<lparr>id_of = ''3003'', username = ''friend''\<rparr>"

definition slash_command :: "string \<Rightarrow> user \<Rightarrow> interaction" where
  "slash_command name who =
     \<lparr>isCommand = True, isChatInputCommand = True, commandName = name, invoker = who,
      options = [(''member'', newcomer), (''inviter'', friend)]\<rparr>"

section \<open>Properties\<close>

subsection \<open>The channel name\<close>

lemma toLowerCase_verify: "toLowerCase ''verify-'' = ''verify-''"
  by (simp add: toLowerCase_def toLowerCase_char_def)

lemma strip_verify: "strip_non_channel ''verify-'' = ''verify-''"
  by (simp add: strip_non_channel_def channel_char_def)

text \<open>
  C9 (as stated): the derived channel identifier is exactly the lowercased display name
  with every character outside \<open>[a-z0-9-]\<close> removed. For the user name \<open>Bob\<close> that
  string is \<open>bob\<close>, but the provisioner derives \<open>verify-bob\<close>.
\<close>

theorem channelName_not_filtered_name_counterexample:
  "channelName ''Bob'' = ''verify-bob'' \<and>
   strip_non_channel (toLowerCase ''Bob'') = ''bob'' \<and>
   channelName ''Bob'' \<noteq> strip_non_channel (toLowerCase ''Bob'')"
  by (simp add: channelName_def strip_non_channel_def toLowerCase_def
      toLowerCase_char_def channel_char_def char_of_eq_iff)

text \<open>
  C9 (amended): the derived channel identifier is the text \<open>verify-\<close> followed by the
  lowercased user name with every character outside \<open>[a-z0-9-]\<close> removed; every
  character of the identifier lies in \<open>[a-z0-9-]\<close>.
\<close>

theorem channelName_is_prefixed_filtered_name:
  "channelName name = ''verify-'' @ strip_non_channel (toLowerCase name) \<and>
   list_all channel_char (channelName name)"
proof -
  have "channelName name
      = strip_non_channel (toLowerCase ''verify-'') @ strip_non_channel (toLowerCase name)"
    by (simp add: channelName_def strip_non_channel_def toLowerCase_def)
  then have eq: "channelName name = ''verify-'' @ strip_non_channel (toLowerCase name)"
    by (simp only: toLowerCase_verify strip_verify)
  have "list_all channel_char (channelName name)"
    by (simp add: channelName_def strip_non_channel_def list_all_iff)
  with eq show ?thesis by simp
qed

theorem channelName_is_prefixed_filtered_name_witness:
  "channelName ''J. Doe_99'' = ''verify-jdoe99'' \<and>
   list_all channel_char (channelName ''J. Doe_99'')"
  using channelName_is_prefixed_filtered_name [of "''J. Doe_99''"]
  by (simp add: strip_non_channel_def toLowerCase_def toLowerCase_char_def channel_char_def
      char_of_eq_iff)

subsection \<open>Lemmas on the formatting of numbers\<close>

lemma decimal_digit: "n < 10 \<Longrightarrow> decimal n = [digit_char n]"
  by (simp add: decimal.simps)

lemma decimal_step: "10 \<le> n \<Longrightarrow> decimal n = decimal (n div 10) @ [digit_char (n mod 10)]"
  by (subst decimal.simps) simp

lemma digit_char_0: "digit_char 0 = CHR ''0''"
  by (simp add: digit_char_def char_of_eq_iff)

lemma decimal_nonempty: "decimal n \<noteq> []"
  by (subst decimal.simps) simp

lemma decimal_two_digits:
  "10 \<le> n \<Longrightarrow> n < 100 \<Longrightarrow> decimal n = [digit_char (n div 10), digit_char (n mod 10)]"
  by (simp add: decimal_step decimal_digit)

lemma div_div_100: "(n::nat) div 10 div 10 = n div 100"
  by (simp add: div_mult2_eq [symmetric])

lemma decimal_last_two:
  assumes "100 \<le> n"
  shows "decimal n = decimal (n div 100) @ [digit_char (n div 10 mod 10), digit_char (n mod 10)]"
proof -
  have "10 \<le> n" and "10 \<le> n div 10" using assms by simp_all
  then have "decimal n = (decimal (n div 10 div 10) @ [digit_char (n div 10 mod 10)]) @ [digit_char (n mod 10)]"
    by (simp only: decimal_step [of n] decimal_step [of "n div 10"])
  then show ?thesis by (simp only: div_div_100 append_assoc append.simps)
qed

lemma set_point_small:
  assumes "n < 10"
  shows "set_point (decimal n) 2 =
    decimal (n div 100) @ ''.'' @ [digit_char (n div 10 mod 10), digit_char (n mod 10)]"
  using assms by (simp add: set_point_def decimal_digit Let_def numeral_2_eq_2 digit_char_0)

lemma set_point_mid:
  assumes a: "10 \<le> n" "n < 100"
  shows "set_point (decimal n) 2 =
    decimal (n div 100) @ ''.'' @ [digit_char (n div 10 mod 10), digit_char (n mod 10)]"
proof -
  from a have z: "n div 100 = 0" and d: "n div 10 mod 10 = n div 10" by simp_all
  have "decimal (n div 100) = ''0''"
    by (simp only: z) (simp add: decimal_digit digit_char_0)
  then show ?thesis
    by (simp add: set_point_def decimal_two_digits [OF a] d Let_def)
qed

lemma set_point_large:
  assumes a: "100 \<le> n"
  shows "set_point (decimal n) 2 =
    decimal (n div 100) @ ''.'' @ [digit_char (n div 10 mod 10), digit_char (n mod 10)]"
proof -
  define p where "p = decimal (n div 100)"
  have p: "p \<noteq> []" by (simp add: p_def decimal_nonempty)
  have m: "decimal n = p @ [digit_char (n div 10 mod 10), digit_char (n mod 10)]"
    by (simp only: p_def decimal_last_two [OF a])
  from p have "\<not> length (decimal n) \<le> 2" by (simp add: m)
  then show ?thesis
    by (simp add: set_point_def Let_def m p_def [symmetric])
qed

lemma set_point_two:
  "set_point (decimal n) 2 =
    decimal (n div 100) @ ''.'' @ [digit_char (n div 10 mod 10), digit_char (n mod 10)]"
proof -
  consider "n < 10" | "10 \<le> n" "n < 100" | "100 \<le> n" by linarith
  then show ?thesis
    by cases (rule set_point_small set_point_mid set_point_large; assumption)+
qed

lemma toFixed_2:
  assumes "0 \<le> x" and "x < 10 ^ 21"
  shows "toFixed tostr x 2 =
     decimal (nat \<lfloor>x * 100 + 1 / 2\<rfloor> div 100) @ ''.'' @
       [digit_char (nat \<lfloor>x * 100 + 1 / 2\<rfloor> div 10 mod 10),
        digit_char (nat \<lfloor>x * 100 + 1 / 2\<rfloor> mod 10)]"
proof -
  have "\<not> x < 0" and "\<not> 10 ^ 21 \<le> x" using assms by simp_all
  then have "toFixed tostr x 2 = set_point (decimal (nat \<lfloor>x * 100 + 1 / 2\<rfloor>)) 2"
    by (simp add: toFixed_def Let_def)
  then show ?thesis by (simp only: set_point_two)
qed

lemma toFixed_2_negative:
  assumes "x < 0" and "- x < 10 ^ 21"
  shows "toFixed tostr x 2 = ''-'' @ toFixed tostr (- x) 2"
proof -
  have "\<not> - x < 0" and "\<not> 10 ^ 21 \<le> - x" using assms by simp_all
  with assms(1) show ?thesis
    by (simp add: toFixed_def Let_def)
qed

lemma toFixed_zero: "toFixed tostr 0 2 = ''0.00''"
proof -
  have "toFixed tostr 0 2 = decimal 0 @ ''.'' @ [digit_char 0, digit_char 0]"
    using toFixed_2 [of 0 tostr] by simp
  then show ?thesis by (simp add: decimal_digit digit_char_0)
qed

lemma map_enumerate_nth:
  "map (\<lambda>(i, x). f i x) (enumerate 0 xs) = map (\<lambda>k. f k (xs ! k)) [0..<length xs]"
  by (rule nth_equalityI) (simp_all add: nth_enumerate_eq)

subsection \<open>Lemmas on the ledger\<close>

lemma first_selected:
  "(case select_balance t u of [] \<Rightarrow> 0 | b # _ \<Rightarrow> b) =
   (case map_of t u of None \<Rightarrow> 0 | Some b \<Rightarrow> b)"
  by (induction t) (auto simp: select_balance_def)

lemma getBalance_map_of:
  "getBalance (Some t) u = (case map_of t u of None \<Rightarrow> 0 | Some b \<Rightarrow> b)"
  using first_selected [of t u] by (simp add: getBalance_def parseFloat_def split: list.splits)

lemma getBalance_sqlite_map_of:
  "getBalance_sqlite t u = (case map_of t u of None \<Rightarrow> 0 | Some b \<Rightarrow> b)"
  using first_selected [of t u] by (simp add: getBalance_sqlite_def)

lemma map_of_others:
  "map_of (filter (\<lambda>r. fst r \<noteq> u) t) v = (if v = u then None else map_of t v)"
  by (induction t) auto

lemma map_of_rewritten:
  "map_of (map (\<lambda>r. (fst r, add (snd r) d)) (filter (\<lambda>r. fst r = u) t)) v =
   (if v = u then map_option (\<lambda>b. add b d) (map_of t u) else None)"
  by (induction t) auto

lemma map_of_updated:
  "map_of (map (\<lambda>r. if fst r = u then (fst r, add (snd r) d) else r) t) v =
   (if v = u then map_option (\<lambda>b. add b d) (map_of t v) else map_of t v)"
  by (induction t) auto

lemma map_of_appended:
  "map_of (t @ [(u, d)]) v =
   (case map_of t v of None \<Rightarrow> (if v = u then Some d else None) | Some b \<Rightarrow> Some b)"
  by (simp add: map_add_def split: option.splits)

lemma map_of_pg_upsert:
  "map_of (pg_upsert pf t u d) v =
   (if v = u then Some (case map_of t u of None \<Rightarrow> d | Some b \<Rightarrow> float8_add pf b d)
    else map_of t v)"
proof (cases "u \<in> set (map fst t)")
  case True
  then obtain b where b: "map_of t u = Some b"
    by (metis map_of_eq_None_iff not_Some_eq set_map)
  have "map_of (pg_upsert pf t u d) v =
      (case map_of (filter (\<lambda>r. fst r \<noteq> u) t) v of
         None \<Rightarrow> map_of (map (\<lambda>r. (fst r, float8_add pf (snd r) d))
                   (filter (\<lambda>r. fst r = u) t)) v
       | Some b \<Rightarrow> Some b)"
    using True by (simp add: pg_upsert_def map_add_def)
  then show ?thesis
    by (simp add: map_of_others map_of_rewritten b split: option.splits)
next
  case False
  then have none: "map_of t u = None"
    by (simp add: map_of_eq_None_iff)
  with False map_of_appended [of t u d v] show ?thesis
    by (simp add: pg_upsert_def split: option.splits)
qed

lemma map_of_sqlite_upsert:
  "map_of (sqlite_upsert pf t u d inc) v =
   (if v = u then Some (case map_of t u of None \<Rightarrow> d | Some b \<Rightarrow> float8_add pf b inc)
    else map_of t v)"
proof (cases "u \<in> set (map fst t)")
  case True
  then obtain b where "map_of t u = Some b"
    by (metis map_of_eq_None_iff not_Some_eq set_map)
  with True show ?thesis
    by (simp add: sqlite_upsert_def map_of_updated)
next
  case False
  then have none: "map_of t u = None"
    by (simp add: map_of_eq_None_iff)
  with False map_of_appended [of t u d v] show ?thesis
    by (simp add: sqlite_upsert_def split: option.splits)
qed

lemma mset_moved:
  "mset (filter (\<lambda>r. fst r \<noteq> u) t @
         map (\<lambda>r. (fst r, add (snd r) d)) (filter (\<lambda>r. fst r = u) t)) =
   mset (map (\<lambda>r. if fst r = u then (fst r, add (snd r) d) else r) t)"
  by (induction t) auto

lemma mset_pg_sqlite_upsert:
  "mset (pg_upsert pf t u d) = mset (sqlite_upsert pf t u d d)"
  using mset_moved [of u t "float8_add pf" d]
  by (simp add: pg_upsert_def sqlite_upsert_def)

lemma keys_others:
  "map fst (filter (\<lambda>r. fst r \<noteq> u) t) = filter (\<lambda>k. k \<noteq> u) (map fst t)"
  by (induction t) auto

lemma keys_rewritten:
  "map fst (map (\<lambda>r. (fst r, add (snd r) d)) (filter (\<lambda>r. fst r = u) t)) =
   filter (\<lambda>k. k = u) (map fst t)"
  by (induction t) auto

lemma keys_pg_upsert:
  "map fst (pg_upsert pf t u d) =
     (if u \<in> set (map fst t)
      then filter (\<lambda>k. k \<noteq> u) (map fst t) @ filter (\<lambda>k. k = u) (map fst t)
      else map fst t @ [u])"
  using keys_rewritten [of "float8_add pf" d u t]
  by (simp add: pg_upsert_def Let_def keys_others del: map_map)

lemma primary_key_pg_upsert: "primary_key t \<Longrightarrow> primary_key (pg_upsert pf t u d)"
  by (auto simp: primary_key_def keys_pg_upsert)

lemma keys_sqlite_upsert:
  "map fst (sqlite_upsert pf t u d inc) =
     (if u \<in> set (map fst t) then map fst t else map fst t @ [u])"
  by (simp add: sqlite_upsert_def comp_def if_distrib cong: if_cong)

lemma primary_key_sqlite_upsert:
  "primary_key t \<Longrightarrow> primary_key (sqlite_upsert pf t u d inc)"
  by (simp add: primary_key_def keys_sqlite_upsert)

lemma primary_key_addBalances:
  "primary_key t \<Longrightarrow> addBalances pf (Some t) calls = Some t' \<Longrightarrow> primary_key t'"
proof (induction calls arbitrary: t)
  case Nil
  then show ?case by simp
next
  case (Cons c calls)
  obtain u d where c: "c = (u, d)" by (cases c)
  from Cons.prems(2) have "addBalances pf (Some (pg_upsert pf t u d)) calls = Some t'"
    by (simp add: c addBalance_def)
  with Cons.IH [OF primary_key_pg_upsert [OF Cons.prems(1)]] show ?case
    by blast
qed

lemma getBalance_addBalance_other:
  "v \<noteq> u \<Longrightarrow> getBalance (addBalance pf pool u d) v = getBalance pool v"
proof (cases pool)
  case None
  then show ?thesis by (simp add: addBalance_def)
next
  case (Some t)
  assume "v \<noteq> u"
  with Some show ?thesis by (simp add: addBalance_def getBalance_map_of map_of_pg_upsert)
qed

lemma getBalance_addBalances_other:
  "u \<notin> set (map fst calls) \<Longrightarrow> getBalance (addBalances pf pool calls) u = getBalance pool u"
  by (induction calls arbitrary: pool) (auto simp: getBalance_addBalance_other)

lemma getBalance_sqlite_addBalance_other:
  "v \<noteq> u \<Longrightarrow> getBalance_sqlite (addBalance_sqlite pf db u d) v = getBalance_sqlite db v"
  by (simp add: addBalance_sqlite_def getBalance_sqlite_map_of map_of_sqlite_upsert)

lemma getBalance_sqlite_addBalances_other:
  "u \<notin> set (map fst calls) \<Longrightarrow>
     getBalance_sqlite (addBalances_sqlite pf db calls) u = getBalance_sqlite db u"
  by (induction calls arbitrary: db) (auto simp: getBalance_sqlite_addBalance_other)

lemma stored_row: "primary_key t \<Longrightarrow> (u, b) \<in> set t \<Longrightarrow> map_of t u = Some b"
  by (simp add: primary_key_def)

subsection \<open>The ledger helpers\<close>

text \<open>
  C2: \<open>getBalance(userId)\<close> returns the stored balance when the table holds a record
  for \<open>userId\<close>, and 0 when it holds none or when no pool is configured; a user that no
  \<open>addBalance\<close> call since the creation of the table has named has balance 0. This
  holds of the Postgres-backed helper of bot.js and of the SQLite-backed one of part_000.
\<close>

theorem getBalance_stored_or_zero:
  "(primary_key t \<longrightarrow> (u, b) \<in> set t \<longrightarrow>
      getBalance (Some t) u = b \<and> getBalance_sqlite t u = b) \<and>
   (v \<notin> set (map fst t) \<longrightarrow> getBalance (Some t) v = 0 \<and> getBalance_sqlite t v = 0) \<and>
   getBalance None v = 0 \<and>
   (w \<notin> set (map fst calls) \<longrightarrow>
      getBalance (addBalances pf (Some []) calls) w = 0 \<and>
      getBalance (addBalances pf None calls) w = 0 \<and>
      getBalance_sqlite (addBalances_sqlite pf [] calls) w = 0)"
proof -
  have stored: "getBalance (Some t) u = b \<and> getBalance_sqlite t u = b"
    if "primary_key t" and "(u, b) \<in> set t"
    using stored_row [OF that] by (simp add: getBalance_map_of getBalance_sqlite_map_of)
  have absent: "getBalance (Some t) v = 0 \<and> getBalance_sqlite t v = 0"
    if "v \<notin> set (map fst t)"
  proof -
    from that have "map_of t v = None" by (simp add: map_of_eq_None_iff)
    then show ?thesis by (simp add: getBalance_map_of getBalance_sqlite_map_of)
  qed
  have unconfigured: "getBalance None v = 0"
    by (simp add: getBalance_def)
  have fresh: "getBalance (addBalances pf (Some []) calls) w = 0 \<and>
      getBalance (addBalances pf None calls) w = 0 \<and>
      getBalance_sqlite (addBalances_sqlite pf [] calls) w = 0"
    if "w \<notin> set (map fst calls)"
  proof -
    have a: "getBalance (addBalances pf (Some []) calls) w = 0"
      using getBalance_addBalances_other [OF that, of pf "Some []"] by (simp add: getBalance_def select_balance_def)
    have b: "getBalance (addBalances pf None calls) w = 0"
      using getBalance_addBalances_other [OF that, of pf None] by (simp add: getBalance_def)
    have c: "getBalance_sqlite (addBalances_sqlite pf [] calls) w = 0"
      using getBalance_sqlite_addBalances_other [OF that, of pf "[]"]
      by (simp add: getBalance_sqlite_def select_balance_def)
    with a b show ?thesis by simp
  qed
  from stored absent unconfigured fresh show ?thesis by blast
qed

theorem getBalance_stored_or_zero_witness:
  "primary_key [(''alice'', 3 / 5), (''bob'', - 1 / 5)] \<and>
   (''alice'', 3 / 5) \<in> set [(''alice'', 3 / 5), (''bob'', - 1 / 5 :: rat)] \<and>
   getBalance (Some [(''alice'', 3 / 5), (''bob'', - 1 / 5)]) ''alice'' = 3 / 5 \<and>
   getBalance_sqlite [(''alice'', 3 / 5), (''bob'', - 1 / 5)] ''alice'' = 3 / 5 \<and>
   ''carol'' \<notin> set (map fst [(''alice'', 3 / 5), (''bob'', - 1 / 5 :: rat)]) \<and>
   getBalance (Some [(''alice'', 3 / 5), (''bob'', - 1 / 5)]) ''carol'' = 0 \<and>
   getBalance_sqlite [(''alice'', 3 / 5), (''bob'', - 1 / 5)] ''carol'' = 0 \<and>
   getBalance None ''carol'' = 0 \<and>
   ''carol'' \<notin> set (map fst [(''alice'', num_0_2), (''bob'', - num_0_2), (''alice'', num_0_2)]) \<and>
   getBalance (addBalances platform_A (Some [])
      [(''alice'', num_0_2), (''bob'', - num_0_2), (''alice'', num_0_2)]) ''carol'' = 0 \<and>
   getBalance (addBalances platform_A None
      [(''alice'', num_0_2), (''bob'', - num_0_2), (''alice'', num_0_2)]) ''carol'' = 0 \<and>
   getBalance_sqlite (addBalances_sqlite platform_A []
      [(''alice'', num_0_2), (''bob'', - num_0_2), (''alice'', num_0_2)]) ''carol'' = 0"
  using getBalance_stored_or_zero [of "[(''alice'', 3 / 5), (''bob'', - 1 / 5)]" "''alice''" "3 / 5"
      "''carol''" "''carol''" "[(''alice'', num_0_2), (''bob'', - num_0_2), (''alice'', num_0_2)]"
      platform_A]
  by (simp add: primary_key_def)

subsection \<open>The command router\<close>

text \<open>
  C4: when the invoker's identity is not equal to the configured operator identity,
  \<open>verify\<close> and \<open>unverify\<close> leave the pool as it was, call no ledger helper, and
  send one reply, the rejection, visible to the invoker only.
\<close>

theorem non_owner_rejected:
  assumes "isCommand i \<or> isChatInputCommand i"
    and "commandName i = ''verify'' \<or> commandName i = ''unverify''"
    and "OWNER_ID \<noteq> Some (id_of (invoker i))"
  shows "interactionCreate pf OWNER_ID pool i =
    (pool, [Reply (emoji_cross_mark @ '' Only the owner can use this command.'') True])"
  using assms by (auto simp: interactionCreate_def owner_only_text_def)

theorem non_owner_rejected_witness:
  "(isCommand (slash_command ''unverify'' newcomer) \<or>
      isChatInputCommand (slash_command ''unverify'' newcomer)) \<and>
   (commandName (slash_command ''unverify'' newcomer) = ''verify'' \<or>
      commandName (slash_command ''unverify'' newcomer) = ''unverify'') \<and>
   Some (id_of operator) \<noteq> Some (id_of (invoker (slash_command ''unverify'' newcomer))) \<and>
   interactionCreate platform_A (Some (id_of operator)) (Some [(''3003'', num_0_2)])
       (slash_command ''unverify'' newcomer) =
     (Some [(''3003'', num_0_2)],
      [Reply (emoji_cross_mark @ '' Only the owner can use this command.'') True])"
  using non_owner_rejected [of "slash_command ''unverify'' newcomer" "Some (id_of operator)"
      platform_A "Some [(''3003'', num_0_2)]"]
  by (simp add: slash_command_def operator_def newcomer_def)

lemma named_in_verified_text:
  "sublist (username member) (verified_text member inviter) \<and>
   sublist (username inviter) (verified_text member inviter)"
proof -
  have "verified_text member inviter =
      (emoji_check_mark @ '' Verified **'') @ username member @
      (''** was invited by **'' @ username inviter @ ''**.'' @ newline @ ''Added **0.2** to ''
         @ username inviter @ [CHR 0x27] @ ''s balance.'')"
    by (simp add: verified_text_def)
  then have m: "sublist (username member) (verified_text member inviter)"
    by (metis sublist_appendI)
  have "verified_text member inviter =
      (emoji_check_mark @ '' Verified **'' @ username member @ ''** was invited by **'')
      @ username inviter @
      (''**.'' @ newline @ ''Added **0.2** to '' @ username inviter @ [CHR 0x27] @ ''s balance.'')"
    by (simp add: verified_text_def)
  then have "sublist (username inviter) (verified_text member inviter)"
    by (metis sublist_appendI)
  with m show ?thesis by simp
qed

lemma named_in_unverified_text:
  "sublist (username member) (unverified_text member inviter) \<and>
   sublist (username inviter) (unverified_text member inviter)"
proof -
  have "unverified_text member inviter =
      (emoji_left_arrow @ '' Unverified **'') @ username member @
      (''** who was invited by **'' @ username inviter @ ''**.'' @ newline
         @ ''Removed **0.2** from '' @ username inviter @ [CHR 0x27] @ ''s balance.'')"
    by (simp add: unverified_text_def)
  then have m: "sublist (username member) (unverified_text member inviter)"
    by (metis sublist_appendI)
  have "unverified_text member inviter =
      (emoji_left_arrow @ '' Unverified **'' @ username member @ ''** who was invited by **'')
      @ username inviter @
      (''**.'' @ newline @ ''Removed **0.2** from '' @ username inviter @ [CHR 0x27]
         @ ''s balance.'')"
    by (simp add: unverified_text_def)
  then have "sublist (username inviter) (unverified_text member inviter)"
    by (metis sublist_appendI)
  with m show ?thesis by simp
qed

lemma getBalance_addBalance_same:
  "getBalance (addBalance pf (Some t) u d) u =
     (case map_of t u of None \<Rightarrow> d | Some b \<Rightarrow> float8_add pf b d)"
  by (simp add: addBalance_def getBalance_map_of map_of_pg_upsert)

lemma num_0_2_positive: "0 < num_0_2"
  by (simp add: num_0_2_def)

text \<open>
  C3: when the operator invokes \<open>verify\<close> with a member and an inviter, the handler
  defers the reply, calls \<open>addBalance(inviter.id, 0.2)\<close> and then edits the reply to a
  confirmation that names the member and the inviter; for \<open>unverify\<close> it does the same
  with \<open>-0.2\<close>. The inviter's balance becomes the amount when there was no record and
  the store's sum of the old balance and the amount otherwise. Nothing is asked of the
  pool: \<open>unverify\<close> on a table with no record of the inviter leaves the balance
  \<open>-0.2\<close>, below zero.
\<close>

theorem verify_unverify_by_owner:
  assumes "isCommand i \<or> isChatInputCommand i"
    and "OWNER_ID = Some (id_of (invoker i))"
    and "getUser (options i) ''member'' = Some member"
    and "getUser (options i) ''inviter'' = Some inviter"
  shows
    "interactionCreate pf OWNER_ID pool (i\<lparr>commandName := ''verify''\<rparr>) =
       (addBalance pf pool (id_of inviter) num_0_2,
        [DeferReply False, Call_addBalance (id_of inviter) num_0_2,
         EditReply (verified_text member inviter)]) \<and>
     interactionCreate pf OWNER_ID pool (i\<lparr>commandName := ''unverify''\<rparr>) =
       (addBalance pf pool (id_of inviter) (- num_0_2),
        [DeferReply False, Call_addBalance (id_of inviter) (- num_0_2),
         EditReply (unverified_text member inviter)]) \<and>
     sublist (username member) (verified_text member inviter) \<and>
     sublist (username inviter) (verified_text member inviter) \<and>
     sublist (username member) (unverified_text member inviter) \<and>
     sublist (username inviter) (unverified_text member inviter) \<and>
     getBalance (addBalance pf (Some t) (id_of inviter) amount) (id_of inviter) =
       (case map_of t (id_of inviter) of None \<Rightarrow> amount | Some b \<Rightarrow> float8_add pf b amount) \<and>
     getBalance (fst (interactionCreate pf OWNER_ID (Some []) (i\<lparr>commandName := ''unverify''\<rparr>)))
       (id_of inviter) = - num_0_2 \<and>
     - num_0_2 < 0"
proof -
  have v: "interactionCreate pf OWNER_ID pool (i\<lparr>commandName := ''verify''\<rparr>) =
       (addBalance pf pool (id_of inviter) num_0_2,
        [DeferReply False, Call_addBalance (id_of inviter) num_0_2,
         EditReply (verified_text member inviter)])"
    using assms by (auto simp: interactionCreate_def Let_def)
  have u: "interactionCreate pf OWNER_ID pool' (i\<lparr>commandName := ''unverify''\<rparr>) =
       (addBalance pf pool' (id_of inviter) (- num_0_2),
        [DeferReply False, Call_addBalance (id_of inviter) (- num_0_2),
         EditReply (unverified_text member inviter)])" for pool'
    using assms by (auto simp: interactionCreate_def Let_def)
  have n: "getBalance (fst (interactionCreate pf OWNER_ID (Some []) (i\<lparr>commandName := ''unverify''\<rparr>)))
       (id_of inviter) = - num_0_2"
    by (simp add: u getBalance_addBalance_same)
  from v u [of pool] n named_in_verified_text [of member inviter]
    named_in_unverified_text [of member inviter]
    getBalance_addBalance_same [of pf t "id_of inviter" amount] num_0_2_positive
  show ?thesis by simp
qed

theorem verify_unverify_by_owner_witness:
  "(isCommand (slash_command ''verify'' operator) \<or>
      isChatInputCommand (slash_command ''verify'' operator)) \<and>
   Some (id_of operator) = Some (id_of (invoker (slash_command ''verify'' operator))) \<and>
   getUser (options (slash_command ''verify'' operator)) ''member'' = Some newcomer \<and>
   getUser (options (slash_command ''verify'' operator)) ''inviter'' = Some friend \<and>
   interactionCreate platform_A (Some (id_of operator)) (Some [(''3003'', 1)])
       (slash_command ''verify'' operator) =
     (Some [(''3003'', 5404319552844595 / 4503599627370496)],
      [DeferReply False, Call_addBalance ''3003'' num_0_2,
       EditReply (emoji_check_mark @ '' Verified **newcomer** was invited by **friend**.''
          @ newline @ ''Added **0.2** to friend'' @ [CHR 0x27] @ ''s balance.'')]) \<and>
   interactionCreate platform_A (Some (id_of operator)) (Some [(''3003'', 1)])
       (slash_command ''unverify'' operator) =
     (Some [(''3003'', 3602879701896397 / 4503599627370496)],
      [DeferReply False, Call_addBalance ''3003'' (- num_0_2),
       EditReply (emoji_left_arrow @ '' Unverified **newcomer** who was invited by **friend**.''
          @ newline @ ''Removed **0.2** from friend'' @ [CHR 0x27] @ ''s balance.'')]) \<and>
   getBalance (fst (interactionCreate platform_A (Some (id_of operator)) (Some [])
       (slash_command ''unverify'' operator))) ''3003'' = - num_0_2"
proof -
  have plus: "binary64_add 1 num_0_2 = 5404319552844595 / 4503599627370496"
    by code_simp
  have minus: "binary64_add 1 (- num_0_2) = 3602879701896397 / 4503599627370496"
    by code_simp
  from verify_unverify_by_owner [of "slash_command ''verify'' operator" "Some (id_of operator)"
      newcomer friend platform_A "Some [(''3003'', 1)]" "[]" 0]
  show ?thesis
    by (simp add: slash_command_def operator_def newcomer_def friend_def getUser_def
        addBalance_def pg_upsert_def platform_A_def verified_text_def unverified_text_def
        plus minus)
qed

subsection \<open>The leaderboard\<close>

lemma platform_A_scans: "scans_rows (scan_order platform_A)"
  by (simp add: scans_rows_def platform_A_def)

lemma scanned_length: "scans_rows scan \<Longrightarrow> length (scan t) = length t"
  by (metis scans_rows_def mset_eq_length)

lemma scanned_set: "scans_rows scan \<Longrightarrow> set (scan t) = set t"
  by (metis scans_rows_def mset_eq_setD)

lemma scanned_empty: "scans_rows scan \<Longrightarrow> scan [] = []"
  using scanned_length [of scan "[]"] by simp

lemma sorted_by_balance_desc:
  "sorted_wrt (\<lambda>r s. snd s \<le> snd r) (sort_key (\<lambda>r. - snd r) (xs :: table))"
  using sorted_sort_key [of "\<lambda>r. - snd r" xs] by (simp add: sorted_map)

lemma take_sorted_top:
  assumes "sorted_wrt P xs" and "r \<in> set (take n xs)" and "s \<in> set xs" and "s \<notin> set (take n xs)"
  shows "P r s"
proof -
  from assms(3,4) have d: "s \<in> set (drop n xs)"
    by (metis Un_iff append_take_drop_id set_append)
  from assms(1) have "sorted_wrt P (take n xs @ drop n xs)" by simp
  then have "\<forall>x \<in> set (take n xs). \<forall>y \<in> set (drop n xs). P x y"
    unfolding sorted_wrt_append by blast
  with assms(2) d show ?thesis by blast
qed

lemma select_top_sorted:
  "sorted_wrt (\<lambda>r s. snd s \<le> snd r) (select_top pf t n)"
  by (simp add: select_top_def sorted_by_balance_desc)

lemma select_top_props:
  assumes "scans_rows (scan_order pf)"
  shows "length (select_top pf t n) = min n (length t)"
    and "mset (select_top pf t n) \<subseteq># mset t"
    and "\<forall>r \<in> set (select_top pf t n). \<forall>s \<in> set t. s \<notin> set (select_top pf t n) \<longrightarrow> snd s \<le> snd r"
proof -
  let ?o = "sort_key (\<lambda>r. - snd r) (scan_order pf t)"
  have m: "mset ?o = mset t"
    using assms by (simp add: scans_rows_def)
  show "length (select_top pf t n) = min n (length t)"
    by (simp add: select_top_def scanned_length [OF assms] min.commute)
  have "mset (take n ?o) \<subseteq># mset (take n ?o) + mset (drop n ?o)" by simp
  also have "\<dots> = mset ?o" by (simp only: mset_append [symmetric] append_take_drop_id)
  also have "\<dots> = mset t" by (rule m)
  finally show "mset (select_top pf t n) \<subseteq># mset t" by (simp only: select_top_def)
  have s: "set ?o = set t" by (simp add: scanned_set [OF assms])
  show "\<forall>r \<in> set (select_top pf t n). \<forall>s \<in> set t. s \<notin> set (select_top pf t n) \<longrightarrow> snd s \<le> snd r"
    unfolding select_top_def
    using take_sorted_top [OF sorted_by_balance_desc [of "scan_order pf t"], of _ n]
    by (simp only: s [symmetric]) blast
qed

lemma binary64_0_2_twice: "binary64_add num_0_2 num_0_2 = num_0_4"
  by code_simp

text \<open>
  C5 (as stated): \<open>getLeaderboard(n)\<close> breaks ties among records of equal balance by a
  fixed rule, insertion order or identity string. The statement orders by balance only,
  and the rows of equal balance come as the engine holds them. After \<open>alice\<close> is credited
  0.2, \<open>bob\<close> 0.4 and \<open>alice\<close> 0.2 again, both hold 0.4 and Postgres holds the updated
  row of \<open>alice\<close> behind the row of \<open>bob\<close>: the leaderboard of bot.js is \<open>bob\<close>,
  \<open>alice\<close>, against insertion order and against the order of the identity strings.
  After \<open>alice\<close> and \<open>bob\<close> are credited 0.2 each it is \<open>alice\<close>, \<open>bob\<close>, against the
  reverse order of the identity strings.
\<close>

theorem leaderboard_tie_order_counterexample:
  "getLeaderboard platform_A
      (addBalances platform_A (Some []) [(''alice'', num_0_2), (''bob'', num_0_4), (''alice'', num_0_2)])
      (Some 15)
     = [(''bob'', num_0_4), (''alice'', num_0_4)] \<and>
   \<not> ties_broken_by
       (inserted_before [(''alice'', num_0_2), (''bob'', num_0_4), (''alice'', num_0_2)])
       [(''bob'', num_0_4), (''alice'', num_0_4)] \<and>
   \<not> ties_broken_by string_le [(''bob'', num_0_4), (''alice'', num_0_4)] \<and>
   getLeaderboard platform_A
      (addBalances platform_A (Some []) [(''alice'', num_0_2), (''bob'', num_0_2)]) (Some 15)
     = [(''alice'', num_0_2), (''bob'', num_0_2)] \<and>
   \<not> ties_broken_by (\<lambda>u v. string_le v u) [(''alice'', num_0_2), (''bob'', num_0_2)]"
proof -
  have h1: "addBalances platform_A (Some [])
      [(''alice'', num_0_2), (''bob'', num_0_4), (''alice'', num_0_2)]
     = Some [(''bob'', num_0_4), (''alice'', num_0_4)]"
    by (simp add: addBalance_def pg_upsert_def platform_A_def binary64_0_2_twice)
  have h2: "addBalances platform_A (Some []) [(''alice'', num_0_2), (''bob'', num_0_2)]
     = Some [(''alice'', num_0_2), (''bob'', num_0_2)]"
    by (simp add: addBalance_def pg_upsert_def platform_A_def)
  have l1: "getLeaderboard platform_A (Some [(''bob'', num_0_4), (''alice'', num_0_4)]) (Some 15)
     = [(''bob'', num_0_4), (''alice'', num_0_4)]"
    by (simp add: getLeaderboard_def select_top_def platform_A_def)
  have l2: "getLeaderboard platform_A (Some [(''alice'', num_0_2), (''bob'', num_0_2)]) (Some 15)
     = [(''alice'', num_0_2), (''bob'', num_0_2)]"
    by (simp add: getLeaderboard_def select_top_def platform_A_def)
  have t1: "\<not> ties_broken_by
       (inserted_before [(''alice'', num_0_2), (''bob'', num_0_4), (''alice'', num_0_2)])
       [(''bob'', num_0_4), (''alice'', num_0_4)]"
    by (simp add: ties_broken_by_def inserted_before_def first_credit_def)
  have t2: "\<not> ties_broken_by string_le [(''bob'', num_0_4), (''alice'', num_0_4)]"
    by (simp add: ties_broken_by_def)
  have t3: "\<not> ties_broken_by (\<lambda>u v. string_le v u) [(''alice'', num_0_2), (''bob'', num_0_2)]"
    by (simp add: ties_broken_by_def)
  from h1 h2 l1 l2 t1 t2 t3 show ?thesis
    by (simp only: simp_thms)
qed

text \<open>
  C5 (amended): on an engine whose sort meets every row of the table once,
  \<open>getLeaderboard(n)\<close> returns \<open>min n (number of rows)\<close> records, so at most \<open>n\<close>; they
  are records of the table, sorted by balance descending, and no record left out has a
  larger balance than one returned; the result is empty for an empty table and for no
  pool. Records of equal balance come in the order in which the engine holds the rows,
  not in insertion order and not in the order of the identity strings: the query names
  no second key. The SQLite-backed helper of part_000 has the same properties on its
  engine.
\<close>

theorem getLeaderboard_top_n:
  assumes "scans_rows (scan_order pf)"
    and "scans_rows (scan_order pf')"
  shows
    "length (getLeaderboard pf (Some t) (Some n)) = min n (length t) \<and>
     length (getLeaderboard pf pool (Some n)) \<le> n \<and>
     sorted_wrt (\<lambda>r s. snd s \<le> snd r) (getLeaderboard pf pool (Some n)) \<and>
     mset (getLeaderboard pf (Some t) (Some n)) \<subseteq># mset t \<and>
     (\<forall>r \<in> set (getLeaderboard pf (Some t) (Some n)). \<forall>s \<in> set t.
        s \<notin> set (getLeaderboard pf (Some t) (Some n)) \<longrightarrow> snd s \<le> snd r) \<and>
     getLeaderboard pf (Some []) (Some n) = [] \<and>
     getLeaderboard pf None (Some n) = [] \<and>
     length (getLeaderboard_sqlite pf' t n) = min n (length t) \<and>
     sorted_wrt (\<lambda>r s. snd s \<le> snd r) (getLeaderboard_sqlite pf' t n) \<and>
     mset (getLeaderboard_sqlite pf' t n) \<subseteq># mset t \<and>
     (\<forall>r \<in> set (getLeaderboard_sqlite pf' t n). \<forall>s \<in> set t.
        s \<notin> set (getLeaderboard_sqlite pf' t n) \<longrightarrow> snd s \<le> snd r) \<and>
     getLeaderboard_sqlite pf' [] n = []"
proof -
  have eq: "getLeaderboard pf (Some t') (Some n) = select_top pf t' n" for t'
    by (simp add: getLeaderboard_def)
  have none: "getLeaderboard pf None (Some n) = []"
    by (simp add: getLeaderboard_def)
  have len: "length (getLeaderboard pf pool (Some n)) \<le> n"
    by (cases pool) (simp_all add: none eq select_top_props(1) [OF assms(1)])
  have srt: "sorted_wrt (\<lambda>r s. snd s \<le> snd r) (getLeaderboard pf pool (Some n))"
    by (cases pool) (simp_all add: none eq select_top_sorted)
  have emp: "getLeaderboard pf (Some []) (Some n) = []"
    using select_top_props(1) [OF assms(1), of "[]" n] by (simp add: eq)
  have emp': "getLeaderboard_sqlite pf' [] n = []"
    using select_top_props(1) [OF assms(2), of "[]" n] by (simp add: getLeaderboard_sqlite_def)
  from select_top_props [OF assms(1), of t n] select_top_props [OF assms(2), of t n]
    select_top_sorted [of pf' t n] len srt emp emp' none
  show ?thesis
    by (simp only: eq getLeaderboard_sqlite_def simp_thms)
qed

theorem getLeaderboard_top_n_witness:
  "scans_rows (scan_order platform_A) \<and>
   getLeaderboard platform_A (Some [(''alice'', 1 / 5), (''bob'', 3 / 5), (''carol'', 2 / 5)]) (Some 2)
     = [(''bob'', 3 / 5), (''carol'', 2 / 5)] \<and>
   length (getLeaderboard platform_A
     (Some [(''alice'', 1 / 5), (''bob'', 3 / 5), (''carol'', 2 / 5)]) (Some 2)) = min 2 3 \<and>
   sorted_wrt (\<lambda>r s. snd s \<le> snd r) (getLeaderboard platform_A
     (Some [(''alice'', 1 / 5), (''bob'', 3 / 5), (''carol'', 2 / 5)]) (Some 2)) \<and>
   getLeaderboard platform_A (Some []) (Some 2) = [] \<and>
   getLeaderboard_sqlite platform_A [(''alice'', 1 / 5), (''bob'', 3 / 5), (''carol'', 2 / 5)] 2
     = [(''bob'', 3 / 5), (''carol'', 2 / 5)]"
  using getLeaderboard_top_n [OF platform_A_scans platform_A_scans,
      of "[(''alice'', 1 / 5), (''bob'', 3 / 5), (''carol'', 2 / 5)]" 2
         "Some [(''alice'', 1 / 5), (''bob'', 3 / 5), (''carol'', 2 / 5)]"]
    platform_A_scans
  by (simp add: getLeaderboard_def getLeaderboard_sqlite_def select_top_def platform_A_def)

subsection \<open>Running without a database\<close>

text \<open>
  C7: when \<open>DATABASE_URL\<close> is unset or empty, the pool is \<open>null\<close>; then
  \<open>getBalance\<close> returns 0, \<open>getLeaderboard\<close> returns no rows, \<open>addBalance\<close> changes
  nothing, and the \<open>balance\<close> command replies with \<open>0.00\<close>. The reads, and what the
  \<open>balance\<close> and \<open>leaderboard\<close> commands do, are the same as on an empty table.
\<close>

theorem no_database_degrades:
  assumes "\<not> truthy DATABASE_URL"
    and "scans_rows (scan_order pf)"
    and "isCommand i \<or> isChatInputCommand i"
  shows
    "new_pool DATABASE_URL database = None \<and>
     getBalance None userId = 0 \<and>
     getLeaderboard pf None limit = [] \<and>
     addBalance pf None userId amount = None \<and>
     interactionCreate pf OWNER_ID None (i\<lparr>commandName := ''balance''\<rparr>) =
       (None, [DeferReply True, Call_getBalance (id_of (invoker i)),
               EditReply (emoji_money_bag @ '' Your current balance is **0.00**'')]) \<and>
     getBalance None userId = getBalance (Some []) userId \<and>
     getLeaderboard pf None limit = getLeaderboard pf (Some []) limit \<and>
     snd (interactionCreate pf OWNER_ID None (i\<lparr>commandName := ''balance''\<rparr>)) =
       snd (interactionCreate pf OWNER_ID (Some []) (i\<lparr>commandName := ''balance''\<rparr>)) \<and>
     snd (interactionCreate pf OWNER_ID None (i\<lparr>commandName := ''leaderboard''\<rparr>)) =
       snd (interactionCreate pf OWNER_ID (Some []) (i\<lparr>commandName := ''leaderboard''\<rparr>))"
proof -
  have p: "new_pool DATABASE_URL database = None"
    using assms(1) by (simp add: new_pool_def)
  have g: "getBalance None u = 0" and g': "getBalance (Some []) u = 0" for u
    by (simp_all add: getBalance_def select_balance_def)
  have l: "getLeaderboard pf None lim = []" for lim
    by (simp add: getLeaderboard_def)
  have l': "getLeaderboard pf (Some []) lim = []" for lim
    by (simp add: getLeaderboard_def select_top_def scanned_empty [OF assms(2)])
  have a: "addBalance pf None userId amount = None"
    by (simp add: addBalance_def)
  have b: "interactionCreate pf OWNER_ID pool (i\<lparr>commandName := ''balance''\<rparr>) =
       (pool, [DeferReply True, Call_getBalance (id_of (invoker i)),
               EditReply (emoji_money_bag @ '' Your current balance is **0.00**'')])"
    if "getBalance pool (id_of (invoker i)) = 0" for pool
    using assms(3) that by (auto simp: interactionCreate_def balance_text_def toFixed_zero)
  have c: "snd (interactionCreate pf OWNER_ID pool (i\<lparr>commandName := ''leaderboard''\<rparr>)) =
       [DeferReply False, Call_getLeaderboard 15, EditReply no_data_text]"
    if "getLeaderboard pf pool (Some 15) = []" for pool
    using assms(3) that by (auto simp: interactionCreate_def)
  from p g g' l l' a b [OF g] b [OF g'] c [OF l] c [OF l'] show ?thesis
    by simp
qed

theorem no_database_degrades_witness:
  "\<not> truthy None \<and>
   scans_rows (scan_order platform_A) \<and>
   (isCommand (slash_command ''balance'' newcomer) \<or>
      isChatInputCommand (slash_command ''balance'' newcomer)) \<and>
   new_pool None [(''2002'', 1)] = None \<and>
   getBalance (new_pool None [(''2002'', 1)]) ''2002'' = 0 \<and>
   getLeaderboard platform_A (new_pool None [(''2002'', 1)]) (Some 15) = [] \<and>
   addBalance platform_A (new_pool None [(''2002'', 1)]) ''2002'' num_0_2 = None \<and>
   interactionCreate platform_A (Some ''1001'') (new_pool None [(''2002'', 1)])
       (slash_command ''balance'' newcomer) =
     (None, [DeferReply True, Call_getBalance ''2002'',
             EditReply (emoji_money_bag @ '' Your current balance is **0.00**'')])"
  using no_database_degrades [of None platform_A "slash_command ''balance'' newcomer"
      "[(''2002'', 1)]" "''2002''" "Some 15" num_0_2 "Some ''1001''"]
    platform_A_scans
  by (simp add: truthy_def slash_command_def newcomer_def)

subsection \<open>The leaderboard command\<close>

lemma leaderboard_text_ranked:
  "leaderboard_text pf rows =
     emoji_trophy @ '' **Top 15 Leaderboard**'' @ newline @ newline @
     join newline
       (map (\<lambda>k. decimal (k + 1) @ ''. <@'' @ fst (rows ! k) @ ''> '' @ em_dash @ '' **''
                  @ toFixed (number_toString pf) (snd (rows ! k)) 2 @ ''**'')
          [0..<length rows])"
  by (simp add: leaderboard_text_def leaderboard_line_def parseFloat_def map_enumerate_nth)

text \<open>
  C8: the \<open>leaderboard\<close> command defers the reply, calls \<open>getLeaderboard(15)\<close> and
  edits the reply: to the "No data yet!" text when no rows came back, and otherwise to the
  heading followed by one line per row, the \<open>k\<close>-th row (from 0) as rank \<open>k + 1\<close>, the
  mention \<open><@user_id>\<close> and the balance through \<open>toFixed(2)\<close>. Below \<open>10^21\<close> in
  magnitude, \<open>toFixed(2)\<close> is the sign, the integer part and exactly two decimals of the
  balance rounded to hundredths. The pool is left as it was.
\<close>

theorem leaderboard_command:
  assumes "isCommand i \<or> isChatInputCommand i"
    and "commandName i = ''leaderboard''"
    and "rows = getLeaderboard pf pool (Some 15)"
  shows
    "interactionCreate pf OWNER_ID pool i =
       (pool,
        [DeferReply False, Call_getLeaderboard 15,
         EditReply
           (if rows = [] then emoji_trophy @ '' No data yet!''
            else emoji_trophy @ '' **Top 15 Leaderboard**'' @ newline @ newline @
              join newline
                (map (\<lambda>k. decimal (k + 1) @ ''. <@'' @ fst (rows ! k) @ ''> '' @ em_dash
                           @ '' **'' @ toFixed (number_toString pf) (snd (rows ! k)) 2 @ ''**'')
                   [0..<length rows]))]) \<and>
     (0 \<le> x \<and> x < 10 ^ 21 \<longrightarrow>
        toFixed (number_toString pf) x 2 =
          decimal (nat \<lfloor>x * 100 + 1 / 2\<rfloor> div 100) @ ''.'' @
            [digit_char (nat \<lfloor>x * 100 + 1 / 2\<rfloor> div 10 mod 10),
             digit_char (nat \<lfloor>x * 100 + 1 / 2\<rfloor> mod 10)]) \<and>
     (y < 0 \<and> - y < 10 ^ 21 \<longrightarrow>
        toFixed (number_toString pf) y 2 = ''-'' @ toFixed (number_toString pf) (- y) 2)"
proof -
  have "interactionCreate pf OWNER_ID pool i =
       (pool, [DeferReply False, Call_getLeaderboard 15,
               EditReply (if rows = [] then no_data_text else leaderboard_text pf rows)])"
    using assms by (auto simp: interactionCreate_def Let_def)
  then show ?thesis
    using toFixed_2 [of x "number_toString pf"] toFixed_2_negative [of y "number_toString pf"]
    by (simp only: leaderboard_text_ranked no_data_text_def) simp
qed

theorem leaderboard_command_witness:
  "(isCommand (slash_command ''leaderboard'' newcomer) \<or>
      isChatInputCommand (slash_command ''leaderboard'' newcomer)) \<and>
   commandName (slash_command ''leaderboard'' newcomer) = ''leaderboard'' \<and>
   getLeaderboard platform_A (Some [(''3003'', num_0_2), (''2002'', 3 / 2)]) (Some 15)
     = [(''2002'', 3 / 2), (''3003'', num_0_2)] \<and>
   interactionCreate platform_A (Some ''1001'') (Some [(''3003'', num_0_2), (''2002'', 3 / 2)])
       (slash_command ''leaderboard'' newcomer) =
     (Some [(''3003'', num_0_2), (''2002'', 3 / 2)],
      [DeferReply False, Call_getLeaderboard 15,
       EditReply (emoji_trophy @ '' **Top 15 Leaderboard**'' @ newline @ newline @
         ''1. <@2002> '' @ em_dash @ '' **1.50**'' @ newline @
         ''2. <@3003> '' @ em_dash @ '' **0.20**'')]) \<and>
   getLeaderboard platform_A (Some []) (Some 15) = [] \<and>
   interactionCreate platform_A (Some ''1001'') (Some []) (slash_command ''leaderboard'' newcomer) =
     (Some [], [DeferReply False, Call_getLeaderboard 15,
                EditReply (emoji_trophy @ '' No data yet!'')])"
proof -
  have r: "getLeaderboard platform_A (Some [(''3003'', num_0_2), (''2002'', 3 / 2)]) (Some 15)
     = [(''2002'', 3 / 2), (''3003'', num_0_2)]"
    by (simp add: getLeaderboard_def select_top_def platform_A_def num_0_2_def)
  have e: "getLeaderboard platform_A (Some []) (Some 15) = []"
    by (simp add: getLeaderboard_def select_top_def platform_A_def)
  have c: "isCommand (slash_command ''leaderboard'' newcomer) \<or>
      isChatInputCommand (slash_command ''leaderboard'' newcomer)"
    and n: "commandName (slash_command ''leaderboard'' newcomer) = ''leaderboard''"
    by (simp_all add: slash_command_def)
  have f1: "toFixed (number_toString platform_A) (3 / 2) 2 = ''1.50''"
    by code_simp
  have f2: "toFixed (number_toString platform_A) num_0_2 2 = ''0.20''"
    by code_simp
  have d: "decimal (Suc 0) = ''1''" "decimal (Suc (Suc 0)) = ''2''"
    by (simp_all add: decimal_digit digit_char_def char_of_eq_iff)
  from leaderboard_command [OF c n r [symmetric], of "Some ''1001''" 0 0]
    leaderboard_command [OF c n e [symmetric], of "Some ''1001''" 0 0]
  show ?thesis
    by (simp add: r e c n f1 f2 d upt_rec [of 0] upt_rec [of "Suc 0"])
qed

subsection \<open>The rounding of binary64 addition\<close>














subsection \<open>The two implementations of the ledger\<close>

lemma map_of_same_rows:
  assumes "primary_key t" and "mset t = mset t'"
  shows "map_of t = map_of t'"
proof -
  from assms(2) have "mset (map fst t) = mset (map fst t')" by simp
  then have "distinct (map fst t) = distinct (map fst t')" by (rule mset_eq_imp_distinct_iff)
  with assms(1) have d': "distinct (map fst t')" by (simp add: primary_key_def)
  from assms(1) have d: "distinct (map fst t)" by (simp add: primary_key_def)
  from assms(2) have "set t = set t'" by (rule mset_eq_setD)
  with d d' show ?thesis by (simp only: map_of_inject_set)
qed

lemma mset_sqlite_upsert_same_rows:
  assumes "mset t = mset t'" and "float8_add pf = float8_add pf'"
  shows "mset (sqlite_upsert pf t u d i) = mset (sqlite_upsert pf' t' u d i)"
proof -
  let ?w = "\<lambda>r :: row. if fst r = u then (fst r, float8_add pf' (snd r) i) else r"
  from assms(1) have "set t = set t'" by (rule mset_eq_setD)
  then have keys: "(u \<in> set (map fst t)) = (u \<in> set (map fst t'))" by simp
  have rows: "mset (map ?w t) = mset (map ?w t')"
    using assms(1) by simp
  have e: "sqlite_upsert pf t u d i = (if u \<in> set (map fst t) then map ?w t else t @ [(u, d)])"
    by (simp only: sqlite_upsert_def assms(2))
  have e': "sqlite_upsert pf' t' u d i =
      (if u \<in> set (map fst t') then map ?w t' else t' @ [(u, d)])"
    by (simp only: sqlite_upsert_def)
  show ?thesis
  proof (cases "u \<in> set (map fst t)")
    case True
    with keys have "u \<in> set (map fst t')" by blast
    with True rows show ?thesis by (simp only: e e' if_True)
  next
    case False
    with keys have "u \<notin> set (map fst t')" by blast
    with False assms(1) show ?thesis by (simp only: e e' if_False mset_append)
  qed
qed

lemma mset_upserts_same_rows:
  assumes "mset t = mset t'" and "float8_add pf = float8_add pf'"
  shows "mset (pg_upsert pf t u d) = mset (addBalance_sqlite pf' t' u d)"
proof -
  have "mset (pg_upsert pf t u d) = mset (sqlite_upsert pf t u d d)"
    by (rule mset_pg_sqlite_upsert)
  also have "\<dots> = mset (sqlite_upsert pf' t' u d d)"
    using assms by (rule mset_sqlite_upsert_same_rows)
  finally show ?thesis by (simp only: addBalance_sqlite_def)
qed

lemma mset_addBalances_same_rows:
  assumes "float8_add pf = float8_add pf'"
  shows "mset t = mset t' \<Longrightarrow>
    map_option mset (addBalances pf (Some t) calls) = Some (mset (addBalances_sqlite pf' t' calls))"
proof (induction calls arbitrary: t t')
  case Nil
  then show ?case by simp
next
  case (Cons c calls)
  obtain u d where c: "c = (u, d)" by (cases c)
  have "mset (pg_upsert pf t u d) = mset (addBalance_sqlite pf' t' u d)"
    using Cons.prems assms by (rule mset_upserts_same_rows)
  then have "map_option mset (addBalances pf (Some (pg_upsert pf t u d)) calls)
      = Some (mset (addBalances_sqlite pf' (addBalance_sqlite pf' t' u d) calls))"
    by (rule Cons.IH)
  then show ?case
    by (simp only: c addBalances.simps addBalances_sqlite.simps addBalance_def option.case)
qed

lemma sort_of_keys:
  "sort (map f zs) = map f (sort_key f zs)"
proof (rule properties_for_sort)
  show "mset (map f (sort_key f zs)) = mset (map f zs)" by simp
  show "sorted (map f (sort_key f zs))" by (rule sorted_sort_key)
qed

lemma sorted_keys_same:
  fixes xs ys :: table
  assumes "mset xs = mset ys"
  shows "map snd (sort_key (\<lambda>r. - snd r) xs) = map snd (sort_key (\<lambda>r. - snd r) ys)"
proof -
  let ?f = "\<lambda>r :: row. - snd r"
  have m: "mset (map ?f xs) = mset (map ?f ys)"
    using assms by simp
  have "sort (map ?f xs) = sort (map ?f ys)"
  proof (rule properties_for_sort)
    show "mset (sort (map ?f ys)) = mset (map ?f xs)" using m by simp
    show "sorted (sort (map ?f ys))" by (rule sorted_sort)
  qed
  then have e: "map ?f (sort_key ?f xs) = map ?f (sort_key ?f ys)"
    by (simp only: sort_of_keys)
  have u: "map snd zs = map uminus (map ?f zs)" for zs :: table
    by (induction zs) simp_all
  show ?thesis
    by (simp only: u [of "sort_key ?f xs"] u [of "sort_key ?f ys"] e)
qed

lemma same_rows_if_balances_distinct:
  fixes xs ys t :: table
  assumes "distinct (map snd t)" and "set xs = set t" and "set ys = set t"
    and "map snd xs = map snd ys"
  shows "xs = ys"
proof -
  from assms(1) have "inj_on snd (set t)" by (simp add: distinct_map)
  with assms(2,3) have "inj_on snd (set xs \<union> set ys)" by simp
  then have "(map snd xs = map snd ys) = (xs = ys)" by (rule inj_on_map_eq_map)
  with assms(4) show ?thesis by blast
qed

lemma num_0_2_twice_differs: "num_0_4 \<noteq> num_0_2"
  by (simp add: num_0_4_def num_0_2_def)

text \<open>
  C10 (as stated): from equal store states, every operation of the Postgres-backed
  helpers and of the SQLite-backed helpers returns the same result. Both start from the
  empty table; \<open>alice\<close> is credited 0.2, \<open>bob\<close> 0.4 and \<open>alice\<close> 0.2 again. Both then hold
  0.4: Postgres holds the updated row of \<open>alice\<close> behind the row of \<open>bob\<close>, SQLite holds
  it where it was, and \<open>getLeaderboard(1)\<close> is \<open>bob\<close> in bot.js and \<open>alice\<close> in part_000.
\<close>

theorem implementations_differ_counterexample:
  "addBalances platform_A (Some []) [(''alice'', num_0_2), (''bob'', num_0_4), (''alice'', num_0_2)]
     = Some [(''bob'', num_0_4), (''alice'', num_0_4)] \<and>
   addBalances_sqlite platform_A [] [(''alice'', num_0_2), (''bob'', num_0_4), (''alice'', num_0_2)]
     = [(''alice'', num_0_4), (''bob'', num_0_4)] \<and>
   getLeaderboard platform_A
      (addBalances platform_A (Some []) [(''alice'', num_0_2), (''bob'', num_0_4), (''alice'', num_0_2)])
      (Some 1)
     = [(''bob'', num_0_4)] \<and>
   getLeaderboard_sqlite platform_A
      (addBalances_sqlite platform_A [] [(''alice'', num_0_2), (''bob'', num_0_4), (''alice'', num_0_2)])
      1
     = [(''alice'', num_0_4)] \<and>
   getLeaderboard platform_A
      (addBalances platform_A (Some []) [(''alice'', num_0_2), (''bob'', num_0_4), (''alice'', num_0_2)])
      (Some 1)
     \<noteq> getLeaderboard_sqlite platform_A
      (addBalances_sqlite platform_A [] [(''alice'', num_0_2), (''bob'', num_0_4), (''alice'', num_0_2)])
      1"
proof -
  have p: "addBalances platform_A (Some [])
      [(''alice'', num_0_2), (''bob'', num_0_4), (''alice'', num_0_2)]
     = Some [(''bob'', num_0_4), (''alice'', num_0_4)]"
    by (simp add: addBalance_def pg_upsert_def platform_A_def binary64_0_2_twice)
  have q: "addBalances_sqlite platform_A []
      [(''alice'', num_0_2), (''bob'', num_0_4), (''alice'', num_0_2)]
     = [(''alice'', num_0_4), (''bob'', num_0_4)]"
    by (simp add: addBalance_sqlite_def sqlite_upsert_def platform_A_def binary64_0_2_twice)
  have l: "getLeaderboard platform_A (Some [(''bob'', num_0_4), (''alice'', num_0_4)]) (Some 1)
     = [(''bob'', num_0_4)]"
    by (simp add: getLeaderboard_def select_top_def platform_A_def)
  have m: "getLeaderboard_sqlite platform_A [(''alice'', num_0_4), (''bob'', num_0_4)] 1
     = [(''alice'', num_0_4)]"
    by (simp add: getLeaderboard_sqlite_def select_top_def platform_A_def)
  from p q l m show ?thesis by simp
qed

text \<open>
  C10 (amended): on tables that hold the same records, whatever the order in which each
  engine holds them, and with the same addition, the Postgres-backed helpers of bot.js,
  with a pool configured, and the SQLite-backed helpers of part_000 agree up to that
  order: \<open>getBalance\<close> returns the same value; \<open>addBalance\<close>, and any history of
  \<open>addBalance\<close> calls, leaves the same records; \<open>getLeaderboard\<close> returns as many rows
  with the same balances in the same places, and the same rows when no two records of the
  table have the same balance. Among records of equal balance the two can differ.
\<close>

theorem ledger_implementations_agree_up_to_row_order:
  assumes "float8_add pf = float8_add pf'"
    and "scans_rows (scan_order pf)"
    and "scans_rows (scan_order pf')"
    and "primary_key t"
    and "mset t = mset t'"
  shows
    "getBalance (Some t) userId = getBalance_sqlite t' userId \<and>
     map_option mset (addBalance pf (Some t) userId amount)
       = Some (mset (addBalance_sqlite pf' t' userId amount)) \<and>
     map_option mset (addBalances pf (Some t) calls)
       = Some (mset (addBalances_sqlite pf' t' calls)) \<and>
     length (getLeaderboard pf (Some t) (Some n)) = length (getLeaderboard_sqlite pf' t' n) \<and>
     map snd (getLeaderboard pf (Some t) (Some n)) = map snd (getLeaderboard_sqlite pf' t' n) \<and>
     (distinct (map snd t) \<longrightarrow>
        getLeaderboard pf (Some t) (Some n) = getLeaderboard_sqlite pf' t' n)"
proof -
  let ?f = "\<lambda>r :: row. - snd r"
  let ?p = "sort_key ?f (scan_order pf t)"
  let ?q = "sort_key ?f (scan_order pf' t')"
  have g: "getBalance (Some t) userId = getBalance_sqlite t' userId"
    by (simp only: getBalance_map_of getBalance_sqlite_map_of map_of_same_rows [OF assms(4,5)])
  have "mset (pg_upsert pf t userId amount) = mset (addBalance_sqlite pf' t' userId amount)"
    using assms(5,1) by (rule mset_upserts_same_rows)
  then have a: "map_option mset (addBalance pf (Some t) userId amount)
       = Some (mset (addBalance_sqlite pf' t' userId amount))"
    by (simp add: addBalance_def)
  have h: "map_option mset (addBalances pf (Some t) calls)
       = Some (mset (addBalances_sqlite pf' t' calls))"
    using assms(1,5) by (rule mset_addBalances_same_rows)
  have sp: "mset (scan_order pf t) = mset t" and sq: "mset (scan_order pf' t') = mset t'"
    using assms(2,3) by (simp_all add: scans_rows_def)
  have pq: "mset (scan_order pf t) = mset (scan_order pf' t')"
    by (simp only: sp sq assms(5))
  have b: "map snd ?p = map snd ?q"
    using pq by (rule sorted_keys_same)
  have lp: "getLeaderboard pf (Some t) (Some n) = take n ?p"
    and lq: "getLeaderboard_sqlite pf' t' n = take n ?q"
    by (simp_all add: getLeaderboard_def getLeaderboard_sqlite_def select_top_def)
  have bl: "map snd (take n ?p) = map snd (take n ?q)"
    using b by (simp only: take_map [symmetric])
  then have len: "length (take n ?p) = length (take n ?q)"
    by (rule map_eq_imp_length_eq)
  have rows: "take n ?p = take n ?q" if "distinct (map snd t)"
  proof -
    have "set ?p = set t"
      using sp by (simp only: set_sort) (rule mset_eq_setD)
    moreover have "set ?q = set t"
      using sq assms(5) by (simp only: set_sort) (metis mset_eq_setD)
    ultimately have "?p = ?q"
      using that b by (intro same_rows_if_balances_distinct [of t])
    then show ?thesis by (simp only:)
  qed
  from g a h bl len rows show ?thesis
    by (simp only: lp lq) blast
qed

theorem ledger_implementations_agree_up_to_row_order_witness:
  "float8_add platform_A = float8_add platform_A \<and>
   scans_rows (scan_order platform_A) \<and>
   primary_key [(''bob'', num_0_4), (''alice'', num_0_2)] \<and>
   mset [(''bob'', num_0_4), (''alice'', num_0_2)] = mset [(''alice'', num_0_2), (''bob'', num_0_4)] \<and>
   distinct (map snd [(''bob'', num_0_4), (''alice'', num_0_2)]) \<and>
   getBalance (Some [(''bob'', num_0_4), (''alice'', num_0_2)]) ''alice'' = num_0_2 \<and>
   getBalance_sqlite [(''alice'', num_0_2), (''bob'', num_0_4)] ''alice'' = num_0_2 \<and>
   addBalance platform_A (Some [(''bob'', num_0_4), (''alice'', num_0_2)]) ''bob'' num_0_2
     = Some [(''alice'', num_0_2), (''bob'', 1351079888211149 / 2251799813685248)] \<and>
   addBalance_sqlite platform_A [(''alice'', num_0_2), (''bob'', num_0_4)] ''bob'' num_0_2
     = [(''alice'', num_0_2), (''bob'', 1351079888211149 / 2251799813685248)] \<and>
   getLeaderboard platform_A (Some [(''bob'', num_0_4), (''alice'', num_0_2)]) (Some 1)
     = [(''bob'', num_0_4)] \<and>
   getLeaderboard_sqlite platform_A [(''alice'', num_0_2), (''bob'', num_0_4)] 1
     = [(''bob'', num_0_4)]"
proof -
  have s: "binary64_add num_0_4 num_0_2 = 1351079888211149 / 2251799813685248"
    by code_simp
  have k: "primary_key [(''bob'', num_0_4), (''alice'', num_0_2)]"
    by (simp add: primary_key_def)
  have m: "mset [(''bob'', num_0_4), (''alice'', num_0_2)]
      = mset [(''alice'', num_0_2), (''bob'', num_0_4)]"
    by (simp add: add_mset_commute)
  have d: "distinct (map snd [(''bob'', num_0_4), (''alice'', num_0_2)])"
    by (simp add: num_0_2_twice_differs)
  have a1: "addBalance platform_A (Some [(''bob'', num_0_4), (''alice'', num_0_2)]) ''bob'' num_0_2
     = Some [(''alice'', num_0_2), (''bob'', 1351079888211149 / 2251799813685248)]"
    by (simp add: addBalance_def pg_upsert_def platform_A_def s)
  have a2: "addBalance_sqlite platform_A [(''alice'', num_0_2), (''bob'', num_0_4)] ''bob'' num_0_2
     = [(''alice'', num_0_2), (''bob'', 1351079888211149 / 2251799813685248)]"
    by (simp add: addBalance_sqlite_def sqlite_upsert_def platform_A_def s)
  have l: "getLeaderboard platform_A (Some [(''bob'', num_0_4), (''alice'', num_0_2)]) (Some 1)
     = [(''bob'', num_0_4)]"
    by (simp add: getLeaderboard_def select_top_def platform_A_def num_0_4_def num_0_2_def)
  have g: "getBalance (Some [(''bob'', num_0_4), (''alice'', num_0_2)]) ''alice'' = num_0_2"
    by (simp add: getBalance_map_of)
  have g': "getBalance_sqlite [(''alice'', num_0_2), (''bob'', num_0_4)] ''alice'' = num_0_2"
    by (simp add: getBalance_sqlite_map_of)
  have l': "getLeaderboard_sqlite platform_A [(''alice'', num_0_2), (''bob'', num_0_4)] 1
     = [(''bob'', num_0_4)]"
    by (simp add: getLeaderboard_sqlite_def select_top_def platform_A_def num_0_4_def num_0_2_def)
  from ledger_implementations_agree_up_to_row_order [OF refl platform_A_scans platform_A_scans k m,
      of "''alice''" num_0_2 "[]" 1]
    k m d a1 a2 l l' g g' platform_A_scans
  show ?thesis
    by (simp only: simp_thms)
qed

end
